theory Spec2Isabelle
  imports Main "HOL-Library.Word"
begin

unbundle bit_operations_syntax

section \<open>Strings\<close>

text \<open>
  A Python \<^verbatim>\<open>str\<close> is a sequence of code points, and a lone surrogate (\<^verbatim>\<open>U+D800\<close> to
  \<^verbatim>\<open>U+DFFF\<close>) may stand in it, although no UTF-8 encoding of it exists. So the arguments
  of the program are lists of code points; \<open>str\<close> writes an ASCII literal as one. The
  messages that the program returns are constants and stay Isabelle strings. Code points
  above \<^verbatim>\<open>U+10FFFF\<close> stand in no Python string; the model gives them no encoding.
\<close>

type_synonym unicode = "nat list"

definition cp :: "char \<Rightarrow> nat" where
  "cp c = of_char c"

definition str :: "string \<Rightarrow> unicode" where
  "str s = map cp s"

datatype exception = UnicodeEncodeError | IntegrityError

definition encodable :: "nat \<Rightarrow> bool" where
  "encodable c = (c < 0xD800 \<or> 0xDFFF < c \<and> c \<le> 0x10FFFF)"

definition utf8 :: "nat \<Rightarrow> 8 word list" where
  "utf8 c =
     (if c < 0x80 then [of_nat c]
      else if c < 0x800 then [of_nat (0xC0 + c div 0x40), of_nat (0x80 + c mod 0x40)]
      else if c < 0x10000 then
        [of_nat (0xE0 + c div 0x1000), of_nat (0x80 + c div 0x40 mod 0x40),
         of_nat (0x80 + c mod 0x40)]
      else
        [of_nat (0xF0 + c div 0x40000), of_nat (0x80 + c div 0x1000 mod 0x40),
         of_nat (0x80 + c div 0x40 mod 0x40), of_nat (0x80 + c mod 0x40)])"

text \<open>\<^verbatim>\<open>s.encode()\<close>: the UTF-8 bytes of \<open>s\<close>, or \<^verbatim>\<open>UnicodeEncodeError\<close>.\<close>

definition encode :: "unicode \<Rightarrow> exception + 8 word list" where
  "encode s =
     (if list_all encodable s then Inr (concat (map utf8 s)) else Inl UnicodeEncodeError)"

section \<open>Regular expressions as used by the validators\<close>

text \<open>
  The two validators of \<^verbatim>\<open>user_functions.py\<close> call Python's \<^verbatim>\<open>re.search\<close> and
  \<^verbatim>\<open>re.match\<close> on three fixed patterns. The patterns are sequences of single characters
  and bracket classes, some of them repeated (\<^verbatim>\<open>+\<close> is \<^verbatim>\<open>{1,}\<close>, and \<^verbatim>\<open>{2,}\<close>). A bracket
  class is kept as the list of its ranges of code points, a single member \<^verbatim>\<open>c\<close> being the
  range \<^verbatim>\<open>c-c\<close>. The matcher works on code points and never encodes, so it accepts a
  lone surrogate like any other character outside the classes.
\<close>

type_synonym char_class = "(nat \<times> nat) list"

definition in_class :: "char_class \<Rightarrow> nat \<Rightarrow> bool" where
  "in_class cls c = list_ex (\<lambda>(lo, hi). lo \<le> c \<and> c \<le> hi) cls"

datatype atom = Chr nat | Cls char_class

fun atom_matches :: "atom \<Rightarrow> nat \<Rightarrow> bool" where
  "atom_matches (Chr x) c = (c = x)"
| "atom_matches (Cls cls) c = in_class cls c"

datatype piece = One atom | Repeat nat atom

text \<open>
  The matcher backtracks as Python's does: a repetition first takes as many characters as
  it can and gives them back one at a time, down to its minimum. \<open>match_here p s\<close> lists,
  in the order they are tried, the rests of \<open>s\<close> after each way of matching \<open>p\<close> at the
  start of \<open>s\<close>.
\<close>

fun match_here :: "piece list \<Rightarrow> unicode \<Rightarrow> unicode list" where
  "match_here [] s = [s]"
| "match_here (One a # ps) s =
     (case s of [] \<Rightarrow> [] | c # cs \<Rightarrow> if atom_matches a c then match_here ps cs else [])"
| "match_here (Repeat n a # ps) s =
     concat (map (\<lambda>k. match_here ps (drop k s))
                 (rev [n ..< Suc (length (takeWhile (atom_matches a) s))]))"

text \<open>\<^verbatim>\<open>re.match\<close>: the first match at the start of the string (its text), or \<open>None\<close>.\<close>

definition re_match :: "piece list \<Rightarrow> unicode \<Rightarrow> unicode option" where
  "re_match p s =
     (case match_here p s of [] \<Rightarrow> None | r # _ \<Rightarrow> Some (take (length s - length r) s))"

text \<open>\<^verbatim>\<open>re.search\<close>: the first match at the leftmost position that has one, or \<open>None\<close>.\<close>

fun re_search :: "piece list \<Rightarrow> unicode \<Rightarrow> unicode option" where
  "re_search p [] = re_match p []"
| "re_search p (c # cs) =
     (case re_match p (c # cs) of Some m \<Rightarrow> Some m | None \<Rightarrow> re_search p cs)"

text \<open>The words matched by a pattern, for stating what the matcher decides.\<close>

fun lang :: "piece list \<Rightarrow> unicode set" where
  "lang [] = {[]}"
| "lang (One a # ps) = {c # w | c w. atom_matches a c \<and> w \<in> lang ps}"
| "lang (Repeat n a # ps) =
     {u @ w | u w. n \<le> length u \<and> (\<forall>c \<in> set u. atom_matches a c) \<and> w \<in> lang ps}"

section \<open>Validator\<close>

text \<open>\<^verbatim>\<open>[0-9]\<close>\<close>

definition digit_pattern :: "piece list" where
  "digit_pattern = [One (Cls [(cp CHR ''0'', cp CHR ''9'')])]"

text \<open>\<^verbatim>\<open>[!@#$%^&*(),.?\":{}|<>]\<close>; the escaped member is the double quote, \<open>CHR 0x22\<close>.\<close>

definition special_pattern :: "piece list" where
  "special_pattern =
     [One (Cls [(cp CHR ''!'', cp CHR ''!''), (cp CHR ''@'', cp CHR ''@''),
                (cp CHR ''#'', cp CHR ''#''), (cp CHR ''$'', cp CHR ''$''),
                (cp CHR ''%'', cp CHR ''%''), (cp CHR ''^'', cp CHR ''^''),
                (cp CHR ''&'', cp CHR ''&''), (cp CHR ''*'', cp CHR ''*''),
                (cp CHR ''('', cp CHR ''(''), (cp CHR '')'', cp CHR '')''),
                (cp CHR '','', cp CHR '',''), (cp CHR ''.'', cp CHR ''.''),
                (cp CHR ''?'', cp CHR ''?''), (cp (CHR 0x22), cp (CHR 0x22)),
                (cp CHR '':'', cp CHR '':''), (cp CHR ''{'', cp CHR ''{''),
                (cp CHR ''}'', cp CHR ''}''), (cp CHR ''|'', cp CHR ''|''),
                (cp CHR ''<'', cp CHR ''<''), (cp CHR ''>'', cp CHR ''>'')])]"

definition is_valid_password :: "unicode \<Rightarrow> bool" where
  "is_valid_password password =
     (if re_search digit_pattern password \<noteq> None \<and> re_search special_pattern password \<noteq> None
      then True else False)"

text \<open>\<^verbatim>\<open>[a-zA-Z0-9._%+-]+@[a-zA-Z0-9.-]+\.[a-zA-Z]{2,}\<close>\<close>

definition email_pattern :: "piece list" where
  "email_pattern =
     [Repeat 1 (Cls [(cp CHR ''a'', cp CHR ''z''), (cp CHR ''A'', cp CHR ''Z''),
                     (cp CHR ''0'', cp CHR ''9''), (cp CHR ''.'', cp CHR ''.''),
                     (cp CHR ''_'', cp CHR ''_''), (cp CHR ''%'', cp CHR ''%''),
                     (cp CHR ''+'', cp CHR ''+''), (cp CHR ''-'', cp CHR ''-'')]),
      One (Chr (cp CHR ''@'')),
      Repeat 1 (Cls [(cp CHR ''a'', cp CHR ''z''), (cp CHR ''A'', cp CHR ''Z''),
                     (cp CHR ''0'', cp CHR ''9''), (cp CHR ''.'', cp CHR ''.''),
                     (cp CHR ''-'', cp CHR ''-'')]),
      One (Chr (cp CHR ''.'')),
      Repeat 2 (Cls [(cp CHR ''a'', cp CHR ''z''), (cp CHR ''A'', cp CHR ''Z'')])]"

definition is_valid_email :: "unicode \<Rightarrow> bool" where
  "is_valid_email email = (if re_match email_pattern email \<noteq> None then True else False)"

text \<open>The character sets in the words of the specification.\<close>

definition decimal_digit :: "nat \<Rightarrow> bool" where
  "decimal_digit c = (c \<in> set (str ''0123456789''))"

definition special_char :: "nat \<Rightarrow> bool" where
  "special_char c = (c \<in> set (str (''!@#$%^&*(),.?'' @ [CHR 0x22] @ '':{}|<>'')))"

definition letter :: "nat \<Rightarrow> bool" where
  "letter c = (c \<in> {cp CHR ''a'' .. cp CHR ''z''} \<union> {cp CHR ''A'' .. cp CHR ''Z''})"

definition local_char :: "nat \<Rightarrow> bool" where
  "local_char c = (letter c \<or> decimal_digit c \<or> c \<in> set (str ''._%+-''))"

definition domain_char :: "nat \<Rightarrow> bool" where
  "domain_char c = (letter c \<or> decimal_digit c \<or> c \<in> set (str ''.-''))"

section \<open>Hasher\<close>

text \<open>
  \<^verbatim>\<open>hash_password\<close> is \<^verbatim>\<open>hashlib.sha256(password.encode()).hexdigest()\<close>: SHA-256 (FIPS 180-4)
  of the UTF-8 bytes of the password, printed as 64 lower-case hexadecimal digits, and
  \<^verbatim>\<open>UnicodeEncodeError\<close> when the password has no encoding. Words are \<open>32 word\<close>, so \<open>+\<close>
  wraps modulo \<open>2 ^ 32\<close> as the standard requires.
\<close>

definition rotr :: "nat \<Rightarrow> 32 word \<Rightarrow> 32 word" where
  "rotr n x = drop_bit n x OR push_bit (32 - n) x"

definition K256 :: "32 word list" where
  "K256 =
     [0x428A2F98, 0x71374491, 0xB5C0FBCF, 0xE9B5DBA5, 0x3956C25B, 0x59F111F1, 0x923F82A4, 0xAB1C5ED5,
      0xD807AA98, 0x12835B01, 0x243185BE, 0x550C7DC3, 0x72BE5D74, 0x80DEB1FE, 0x9BDC06A7, 0xC19BF174,
      0xE49B69C1, 0xEFBE4786, 0x0FC19DC6, 0x240CA1CC, 0x2DE92C6F, 0x4A7484AA, 0x5CB0A9DC, 0x76F988DA,
      0x983E5152, 0xA831C66D, 0xB00327C8, 0xBF597FC7, 0xC6E00BF3, 0xD5A79147, 0x06CA6351, 0x14292967,
      0x27B70A85, 0x2E1B2138, 0x4D2C6DFC, 0x53380D13, 0x650A7354, 0x766A0ABB, 0x81C2C92E, 0x92722C85,
      0xA2BFE8A1, 0xA81A664B, 0xC24B8B70, 0xC76C51A3, 0xD192E819, 0xD6990624, 0xF40E3585, 0x106AA070,
      0x19A4C116, 0x1E376C08, 0x2748774C, 0x34B0BCB5, 0x391C0CB3, 0x4ED8AA4A, 0x5B9CCA4F, 0x682E6FF3,
      0x748F82EE, 0x78A5636F, 0x84C87814, 0x8CC70208, 0x90BEFFFA, 0xA4506CEB, 0xBEF9A3F7, 0xC67178F2]"

definition H256 :: "32 word list" where
  "H256 =
     [0x6A09E667, 0xBB67AE85, 0x3C6EF372, 0xA54FF53A, 0x510E527F, 0x9B05688C, 0x1F83D9AB, 0x5BE0CD19]"

text \<open>
  Padding: the byte \<open>0x80\<close>, zero bytes up to 56 modulo 64, and the length of the message
  in bits as eight bytes, most significant first.
\<close>

definition pad :: "8 word list \<Rightarrow> 8 word list" where
  "pad m =
     m @ [0x80] @ replicate ((119 - length m mod 64) mod 64) 0 @
     map (\<lambda>i. ucast (drop_bit (8 * i) (word_of_nat (8 * length m) :: 64 word))) (rev [0 ..< 8])"

fun be32 :: "8 word list \<Rightarrow> 32 word list" where
  "be32 (a # b # c # d # r) =
     (push_bit 24 (ucast a) OR push_bit 16 (ucast b) OR push_bit 8 (ucast c) OR ucast d) # be32 r"
| "be32 _ = []"

text \<open>The message schedule: \<open>schedule n w\<close> appends \<open>n\<close> words to the (at least 16) words \<open>w\<close>.\<close>

fun schedule :: "nat \<Rightarrow> 32 word list \<Rightarrow> 32 word list" where
  "schedule 0 w = w"
| "schedule (Suc n) w =
     (let i = length w;
          s0 = rotr 7 (w ! (i - 15)) XOR rotr 18 (w ! (i - 15)) XOR drop_bit 3 (w ! (i - 15));
          s1 = rotr 17 (w ! (i - 2)) XOR rotr 19 (w ! (i - 2)) XOR drop_bit 10 (w ! (i - 2))
      in schedule n (w @ [w ! (i - 16) + s0 + w ! (i - 7) + s1]))"

fun round256 :: "32 word list \<Rightarrow> 32 word \<times> 32 word \<Rightarrow> 32 word list" where
  "round256 [a, b, c, d, e, f, g, h] (k, w) =
     (let S1 = rotr 6 e XOR rotr 11 e XOR rotr 25 e;
          ch = (e AND f) XOR (NOT e AND g);
          t1 = h + S1 + ch + k + w;
          S0 = rotr 2 a XOR rotr 13 a XOR rotr 22 a;
          maj = (a AND b) XOR (a AND c) XOR (b AND c);
          t2 = S0 + maj
      in [t1 + t2, a, b, c, d + t1, e, f, g])"
| "round256 v _ = v"

definition compress :: "32 word list \<Rightarrow> 32 word list \<Rightarrow> 32 word list" where
  "compress h blk = map2 (+) h (foldl round256 h (zip K256 (schedule 48 blk)))"

fun chunks :: "nat \<Rightarrow> 32 word list \<Rightarrow> 32 word list list" where
  "chunks 0 ws = []"
| "chunks (Suc n) ws = take 16 ws # chunks n (drop 16 ws)"

definition sha256 :: "8 word list \<Rightarrow> 32 word list" where
  "sha256 m = (let ws = be32 (pad m) in foldl compress H256 (chunks (length ws div 16) ws))"

definition hex32 :: "32 word \<Rightarrow> string" where
  "hex32 w = map (\<lambda>i. ''0123456789abcdef'' ! unat (drop_bit (4 * i) w AND 0xf)) (rev [0 ..< 8])"

definition hexdigest :: "32 word list \<Rightarrow> string" where
  "hexdigest ws = concat (map hex32 ws)"

definition hash_password :: "unicode \<Rightarrow> exception + string" where
  "hash_password password =
     (case encode password of
        Inl err \<Rightarrow> Inl err
      | Inr data \<Rightarrow> Inr (hexdigest (sha256 data)))"

section \<open>The users table\<close>

text \<open>
  One row of the table \<^verbatim>\<open>users\<close> of \<^verbatim>\<open>create_database\<close>. The columns \<^verbatim>\<open>id\<close>, \<^verbatim>\<open>email\<close> and
  \<^verbatim>\<open>password\<close> are the fields \<open>user_id\<close>, \<open>user_email\<close> and \<open>user_password\<close>; a nullable
  timestamp is an \<open>option\<close>, \<open>None\<close> being SQL's \<^verbatim>\<open>NULL\<close>. The password column only ever
  receives a digest, sixty-four hexadecimal digits.
\<close>

type_synonym timestamp = nat

record user =
  user_id :: nat
  user_email :: unicode
  user_password :: string
  is_active :: bool
  registration_date :: "timestamp option"
  activation_date :: "timestamp option"

text \<open>
  The store behind a \<^verbatim>\<open>db_path\<close>, once \<^verbatim>\<open>create_database\<close> has run: the committed rows in
  insertion order, the \<^verbatim>\<open>AUTOINCREMENT\<close> counter, and how many connections are open on it.
  Limits of the storage engine on the size of a value are not modelled.
\<close>

record database =
  users :: "user list"
  sqlite_sequence :: nat
  open_connections :: nat

definition empty_database :: database where
  "empty_database = \<lparr>users = [], sqlite_sequence = 0, open_connections = 0\<rparr>"

text \<open>
  A connection works on its own view of the table; \<^verbatim>\<open>commit\<close> writes the view back, and
  \<^verbatim>\<open>close\<close> without \<^verbatim>\<open>commit\<close> drops it.
\<close>

record connection =
  conn_users :: "user list"
  conn_sequence :: nat

definition sqlite3_connect :: "database \<Rightarrow> database \<times> connection" where
  "sqlite3_connect db =
     (db\<lparr>open_connections := Suc (open_connections db)\<rparr>,
      \<lparr>conn_users = users db, conn_sequence = sqlite_sequence db\<rparr>)"

definition conn_commit :: "database \<Rightarrow> connection \<Rightarrow> database" where
  "conn_commit db conn = db\<lparr>users := conn_users conn, sqlite_sequence := conn_sequence conn\<rparr>"

definition conn_close :: "database \<Rightarrow> database" where
  "conn_close db = db\<lparr>open_connections := open_connections db - 1\<rparr>"

text \<open>
  A \<^verbatim>\<open>str\<close> bound to a \<^verbatim>\<open>?\<close> of a statement is handed to the engine as UTF-8: binding
  raises \<^verbatim>\<open>UnicodeEncodeError\<close> when it has no encoding, before the statement runs.
\<close>

definition bind_text :: "unicode \<Rightarrow> exception + unicode" where
  "bind_text s = (case encode s of Inl err \<Rightarrow> Inl err | Inr _ \<Rightarrow> Inr s)"

text \<open>\<^verbatim>\<open>SELECT * FROM users WHERE email = ?\<close>\<close>

definition select_where_email :: "connection \<Rightarrow> unicode \<Rightarrow> exception + user list" where
  "select_where_email conn email =
     (case bind_text email of
        Inl err \<Rightarrow> Inl err
      | Inr e \<Rightarrow> Inr (filter (\<lambda>u. user_email u = e) (conn_users conn)))"

text \<open>\<^verbatim>\<open>SELECT password, is_active FROM users WHERE email = ?\<close>\<close>

definition select_password_is_active ::
  "connection \<Rightarrow> unicode \<Rightarrow> exception + (string \<times> bool) list" where
  "select_password_is_active conn email =
     (case bind_text email of
        Inl err \<Rightarrow> Inl err
      | Inr e \<Rightarrow>
          Inr (map (\<lambda>u. (user_password u, is_active u))
                 (filter (\<lambda>u. user_email u = e) (conn_users conn))))"

definition fetchone :: "'a list \<Rightarrow> 'a option" where
  "fetchone rows = (case rows of [] \<Rightarrow> None | r # _ \<Rightarrow> Some r)"

text \<open>
  \<^verbatim>\<open>INSERT INTO users (email, password, is_active) VALUES (?, ?, ?)\<close>: the \<^verbatim>\<open>UNIQUE\<close>
  constraint on \<^verbatim>\<open>email\<close> raises \<^verbatim>\<open>IntegrityError\<close>; \<^verbatim>\<open>id\<close> and \<^verbatim>\<open>registration_date\<close> take
  their defaults, \<^verbatim>\<open>activation_date\<close> is \<^verbatim>\<open>NULL\<close>.
\<close>

definition insert_user ::
  "timestamp \<Rightarrow> connection \<Rightarrow> unicode \<Rightarrow> string \<Rightarrow> bool \<Rightarrow> exception + connection" where
  "insert_user now conn email password active =
     (case bind_text email of
        Inl err \<Rightarrow> Inl err
      | Inr e \<Rightarrow>
          if list_ex (\<lambda>u. user_email u = e) (conn_users conn) then Inl IntegrityError
          else Inr (conn\<lparr>conn_users := conn_users conn @
                        [\<lparr>user_id = Suc (conn_sequence conn), user_email = e,
                          user_password = password, is_active = active,
                          registration_date = Some now, activation_date = None\<rparr>],
                      conn_sequence := Suc (conn_sequence conn)\<rparr>))"

text \<open>
  \<^verbatim>\<open>UPDATE users SET is_active = ?, activation_date = CURRENT_TIMESTAMP WHERE email = ?\<close>
\<close>

definition update_activation ::
  "timestamp \<Rightarrow> connection \<Rightarrow> bool \<Rightarrow> unicode \<Rightarrow> exception + connection" where
  "update_activation now conn active email =
     (case bind_text email of
        Inl err \<Rightarrow> Inl err
      | Inr e \<Rightarrow>
          Inr (conn\<lparr>conn_users :=
            map (\<lambda>u. if user_email u = e
                      then u\<lparr>is_active := active, activation_date := Some now\<rparr> else u)
                (conn_users conn)\<rparr>))"

text \<open>\<^verbatim>\<open>UPDATE users SET password = ? WHERE email = ?\<close>\<close>

definition update_password :: "connection \<Rightarrow> string \<Rightarrow> unicode \<Rightarrow> exception + connection" where
  "update_password conn password email =
     (case bind_text email of
        Inl err \<Rightarrow> Inl err
      | Inr e \<Rightarrow>
          Inr (conn\<lparr>conn_users :=
            map (\<lambda>u. if user_email u = e then u\<lparr>user_password := password\<rparr> else u)
                (conn_users conn)\<rparr>))"

section \<open>Account service\<close>

text \<open>
  Each operation takes the store at \<^verbatim>\<open>db_path\<close> and returns the store it leaves with its
  outcome: \<open>Inr\<close> of the pair it returns, or \<open>Inl\<close> of the exception that leaves it. No
  operation catches an exception, so one raised after \<^verbatim>\<open>sqlite3.connect\<close> skips the
  statements that follow, \<^verbatim>\<open>conn.commit()\<close> and \<^verbatim>\<open>conn.close()\<close> among them. \<open>now\<close> is the
  clock that \<^verbatim>\<open>CURRENT_TIMESTAMP\<close> reads.
\<close>

type_synonym outcome = "exception + bool \<times> string"

definition register_user ::
  "timestamp \<Rightarrow> database \<Rightarrow> unicode \<Rightarrow> unicode \<Rightarrow> database \<times> outcome" where
  "register_user now db_path email password =
     (if \<not> is_valid_email email then (db_path, Inr (False, ''Invalid email format''))
      else if \<not> is_valid_password password then
        (db_path,
         Inr (False, ''Password should contain at least one digit and one special character.''))
      else
        let (db, conn) = sqlite3_connect db_path in
        case select_where_email conn email of
          Inl err \<Rightarrow> (db, Inl err)
        | Inr rows \<Rightarrow>
            if fetchone rows \<noteq> None then
              (conn_close db, Inr (False, ''Email already registered''))
            else
              case hash_password password of
                Inl err \<Rightarrow> (db, Inl err)
              | Inr hashed_password \<Rightarrow>
                  case insert_user now conn email hashed_password False of
                    Inl err \<Rightarrow> (db, Inl err)
                  | Inr conn' \<Rightarrow>
                      (conn_close (conn_commit db conn'),
                       Inr (True, ''Registration successful'')))"

definition activate_user :: "timestamp \<Rightarrow> database \<Rightarrow> unicode \<Rightarrow> database \<times> outcome" where
  "activate_user now db_path email =
     (let (db, conn) = sqlite3_connect db_path in
      case select_where_email conn email of
        Inl err \<Rightarrow> (db, Inl err)
      | Inr rows \<Rightarrow>
          if fetchone rows = None then (conn_close db, Inr (False, ''User not found''))
          else
            case update_activation now conn True email of
              Inl err \<Rightarrow> (db, Inl err)
            | Inr conn' \<Rightarrow> (conn_close (conn_commit db conn'), Inr (True, ''User activated'')))"

text \<open>
  The condition of line 206 stops at its first false part: without a row the password is
  not hashed. The successful branch returns at once; only the failing one reaches
  \<^verbatim>\<open>conn.close()\<close>.
\<close>

definition authenticate_user :: "database \<Rightarrow> unicode \<Rightarrow> unicode \<Rightarrow> database \<times> outcome" where
  "authenticate_user db_path email password =
     (let (db, conn) = sqlite3_connect db_path in
      case select_password_is_active conn email of
        Inl err \<Rightarrow> (db, Inl err)
      | Inr rows \<Rightarrow>
          case fetchone rows of
            None \<Rightarrow>
              (conn_close db, Inr (False, ''Invalid credentials or account not activated''))
          | Some (stored, active) \<Rightarrow>
              case hash_password password of
                Inl err \<Rightarrow> (db, Inl err)
              | Inr hashed \<Rightarrow>
                  if hashed = stored \<and> active then (db, Inr (True, ''Authentication successful''))
                  else
                    (conn_close db,
                     Inr (False, ''Invalid credentials or account not activated'')))"

definition reset_password :: "database \<Rightarrow> unicode \<Rightarrow> unicode \<Rightarrow> database \<times> outcome" where
  "reset_password db_path email new_password =
     (if \<not> is_valid_password new_password then
        (db_path,
         Inr (False, ''Password should contain at least one digit and one special character.''))
      else
        let (db, conn) = sqlite3_connect db_path in
        case select_where_email conn email of
          Inl err \<Rightarrow> (db, Inl err)
        | Inr rows \<Rightarrow>
            if fetchone rows = None then (conn_close db, Inr (False, ''User not found''))
            else
              case hash_password new_password of
                Inl err \<Rightarrow> (db, Inl err)
              | Inr hashed_password \<Rightarrow>
                  case update_password conn hashed_password email of
                    Inl err \<Rightarrow> (db, Inl err)
                  | Inr conn' \<Rightarrow>
                      (conn_close (conn_commit db conn'),
                       Inr (True, ''Password reset successfully'')))"

text \<open>A caller's sequence of calls, each with the time at which it is made.\<close>

datatype call =
    Register timestamp unicode unicode
  | Activate timestamp unicode
  | Authenticate unicode unicode
  | Reset unicode unicode

fun run_call :: "database \<Rightarrow> call \<Rightarrow> database" where
  "run_call db (Register now email password) = fst (register_user now db email password)"
| "run_call db (Activate now email) = fst (activate_user now db email)"
| "run_call db (Authenticate email password) = fst (authenticate_user db email password)"
| "run_call db (Reset email new_password) = fst (reset_password db email new_password)"

definition run_calls :: "call list \<Rightarrow> database" where
  "run_calls cs = foldl run_call empty_database cs"

text \<open>The invariant of the data model on the activation fields, for one table.\<close>

definition activation_consistent :: "user list \<Rightarrow> bool" where
  "activation_consistent us = list_all (\<lambda>u. (activation_date u \<noteq> None) = is_active u) us"

section \<open>What the matcher decides\<close>

lemma digit_range: "(cp CHR ''0'' \<le> c \<and> c \<le> cp CHR ''9'') = decimal_digit c"
  unfolding decimal_digit_def str_def cp_def by simp arith

lemma prefix_takeWhile_length:
  "(\<forall>c \<in> set u. P c) \<Longrightarrow> length u \<le> length (takeWhile P (u @ v))"
  by (induction u) auto

lemma take_takeWhile_all:
  "k \<le> length (takeWhile P s) \<Longrightarrow> c \<in> set (take k s) \<Longrightarrow> P c"
proof (induction s arbitrary: k)
  case Nil
  then show ?case by simp
next
  case (Cons x xs)
  then show ?case by (cases k) (auto split: if_splits)
qed

lemma match_here_iff: "r \<in> set (match_here p s) \<longleftrightarrow> (\<exists>m \<in> lang p. s = m @ r)"
proof (induction p s rule: match_here.induct)
  case (1 s)
  show ?case by auto
next
  case (2 a ps s)
  show ?case
  proof (cases s)
    case Nil
    then show ?thesis by auto
  next
    case (Cons c cs)
    with 2 show ?thesis by (auto simp: Cons_eq_append_conv)
  qed
next
  case (3 n a ps s)
  let ?P = "atom_matches a"
  let ?k = "length (takeWhile ?P s)"
  have IH: "(r \<in> set (match_here ps (drop k s))) = (\<exists>m \<in> lang ps. drop k s = m @ r)"
    if "n \<le> k" "k \<le> ?k" for k
    by (intro 3) (use that in auto)
  have "r \<in> set (match_here (Repeat n a # ps) s)
        \<longleftrightarrow> (\<exists>k. n \<le> k \<and> k \<le> ?k \<and> r \<in> set (match_here ps (drop k s)))"
    by (auto simp: less_Suc_eq_le)
  also have "\<dots> \<longleftrightarrow> (\<exists>k. n \<le> k \<and> k \<le> ?k \<and> (\<exists>m \<in> lang ps. drop k s = m @ r))"
    using IH by blast
  also have "\<dots> \<longleftrightarrow> (\<exists>m \<in> lang (Repeat n a # ps). s = m @ r)"
  proof
    assume "\<exists>k. n \<le> k \<and> k \<le> ?k \<and> (\<exists>m \<in> lang ps. drop k s = m @ r)"
    then obtain k w where k: "n \<le> k" "k \<le> ?k" and w: "w \<in> lang ps" "drop k s = w @ r"
      by blast
    have len: "k \<le> length s"
      using k(2) length_takeWhile_le [of ?P s] by simp
    have all: "\<forall>c \<in> set (take k s). ?P c"
      using k(2) take_takeWhile_all [of k ?P s] by blast
    have "n \<le> length (take k s)"
      using k(1) len by simp
    then have "take k s @ w \<in> lang (Repeat n a # ps)"
      using all w(1) by (simp del: length_take) blast
    moreover have "s = (take k s @ w) @ r"
      using w(2) append_take_drop_id [of k s] by simp
    ultimately show "\<exists>m \<in> lang (Repeat n a # ps). s = m @ r" by blast
  next
    assume "\<exists>m \<in> lang (Repeat n a # ps). s = m @ r"
    then obtain u w where u: "n \<le> length u" "\<forall>c \<in> set u. ?P c"
      and w: "w \<in> lang ps" and s: "s = (u @ w) @ r"
      by auto
    have "length u \<le> ?k"
      using prefix_takeWhile_length [OF u(2), of "w @ r"] s by simp
    moreover have "drop (length u) s = w @ r"
      using s by simp
    ultimately show "\<exists>k. n \<le> k \<and> k \<le> ?k \<and> (\<exists>m \<in> lang ps. drop k s = m @ r)"
      using u(1) w by blast
  qed
  finally show ?case .
qed

lemma re_match_iff: "re_match p s \<noteq> None \<longleftrightarrow> (\<exists>m \<in> lang p. \<exists>r. s = m @ r)"
proof -
  have "re_match p s \<noteq> None \<longleftrightarrow> (\<exists>r. r \<in> set (match_here p s))"
    by (cases "match_here p s") (auto simp: re_match_def)
  then show ?thesis
    unfolding match_here_iff by blast
qed

lemma re_search_iff:
  "re_search p s \<noteq> None \<longleftrightarrow> (\<exists>l. \<exists>m \<in> lang p. \<exists>r. s = l @ m @ r)"
proof (induction s)
  case Nil
  show ?case by (simp only: re_search.simps re_match_iff) simp
next
  case (Cons c cs)
  have "re_search p (c # cs) \<noteq> None \<longleftrightarrow> re_match p (c # cs) \<noteq> None \<or> re_search p cs \<noteq> None"
    by (cases "re_match p (c # cs)") auto
  also have "\<dots> \<longleftrightarrow> (\<exists>m \<in> lang p. \<exists>r. c # cs = m @ r) \<or> (\<exists>l. \<exists>m \<in> lang p. \<exists>r. cs = l @ m @ r)"
    by (simp only: re_match_iff Cons.IH)
  also have "\<dots> \<longleftrightarrow> (\<exists>l. \<exists>m \<in> lang p. \<exists>r. c # cs = l @ m @ r)"
  proof
    assume "(\<exists>m \<in> lang p. \<exists>r. c # cs = m @ r) \<or> (\<exists>l. \<exists>m \<in> lang p. \<exists>r. cs = l @ m @ r)"
    then show "\<exists>l. \<exists>m \<in> lang p. \<exists>r. c # cs = l @ m @ r"
    proof
      assume "\<exists>m \<in> lang p. \<exists>r. c # cs = m @ r"
      then obtain m r where "m \<in> lang p" "c # cs = [] @ m @ r" by auto
      then show ?thesis by blast
    next
      assume "\<exists>l. \<exists>m \<in> lang p. \<exists>r. cs = l @ m @ r"
      then obtain l m r where "m \<in> lang p" "c # cs = (c # l) @ m @ r" by auto
      then show ?thesis by blast
    qed
  next
    assume "\<exists>l. \<exists>m \<in> lang p. \<exists>r. c # cs = l @ m @ r"
    then obtain l m r where m: "m \<in> lang p" and e: "c # cs = l @ m @ r" by blast
    show "(\<exists>m \<in> lang p. \<exists>r. c # cs = m @ r) \<or> (\<exists>l. \<exists>m \<in> lang p. \<exists>r. cs = l @ m @ r)"
    proof (cases l)
      case Nil
      with m e show ?thesis by auto
    next
      case (Cons x xs)
      with e have "cs = xs @ m @ r" by simp
      with m show ?thesis by blast
    qed
  qed
  finally show ?case .
qed

lemma search_one_class:
  "re_search [One a] s \<noteq> None \<longleftrightarrow> (\<exists>c \<in> set s. atom_matches a c)"
proof
  assume "re_search [One a] s \<noteq> None"
  then obtain l m r where "m \<in> lang [One a]" "s = l @ m @ r"
    unfolding re_search_iff by blast
  then obtain c where "atom_matches a c" "s = l @ [c] @ r" by auto
  then show "\<exists>c \<in> set s. atom_matches a c" by auto
next
  assume "\<exists>c \<in> set s. atom_matches a c"
  then obtain c where c: "c \<in> set s" "atom_matches a c" by blast
  then obtain l r where "s = l @ [c] @ r"
    using split_list [of c s] by auto
  moreover have "[c] \<in> lang [One a]" using c(2) by simp
  ultimately show "re_search [One a] s \<noteq> None"
    unfolding re_search_iff by blast
qed

lemma single_range: "(x \<le> c \<and> c \<le> x) = (c = x)" for c :: nat
  by auto

lemma in_class_digit: "in_class [(cp CHR ''0'', cp CHR ''9'')] c = decimal_digit c"
  by (simp add: in_class_def digit_range)

lemma special_class:
  "in_class [(cp CHR ''!'', cp CHR ''!''), (cp CHR ''@'', cp CHR ''@''), (cp CHR ''#'', cp CHR ''#''),
                (cp CHR ''$'', cp CHR ''$''), (cp CHR ''%'', cp CHR ''%''), (cp CHR ''^'', cp CHR ''^''),
                (cp CHR ''&'', cp CHR ''&''), (cp CHR ''*'', cp CHR ''*''), (cp CHR ''('', cp CHR ''(''),
                (cp CHR '')'', cp CHR '')''), (cp CHR '','', cp CHR '',''), (cp CHR ''.'', cp CHR ''.''),
                (cp CHR ''?'', cp CHR ''?''), (cp (CHR 0x22), cp (CHR 0x22)), (cp CHR '':'', cp CHR '':''),
                (cp CHR ''{'', cp CHR ''{''), (cp CHR ''}'', cp CHR ''}''), (cp CHR ''|'', cp CHR ''|''),
                (cp CHR ''<'', cp CHR ''<''), (cp CHR ''>'', cp CHR ''>'')] c = special_char c"
  by (simp add: in_class_def special_char_def str_def single_range)

lemma local_class:
  "in_class [(cp CHR ''a'', cp CHR ''z''), (cp CHR ''A'', cp CHR ''Z''), (cp CHR ''0'', cp CHR ''9''),
             (cp CHR ''.'', cp CHR ''.''), (cp CHR ''_'', cp CHR ''_''), (cp CHR ''%'', cp CHR ''%''),
             (cp CHR ''+'', cp CHR ''+''), (cp CHR ''-'', cp CHR ''-'')] c = local_char c"
  by (simp add: in_class_def local_char_def letter_def str_def digit_range single_range)

lemma domain_class:
  "in_class [(cp CHR ''a'', cp CHR ''z''), (cp CHR ''A'', cp CHR ''Z''), (cp CHR ''0'', cp CHR ''9''),
             (cp CHR ''.'', cp CHR ''.''), (cp CHR ''-'', cp CHR ''-'')] c = domain_char c"
  by (simp add: in_class_def domain_char_def letter_def str_def digit_range single_range)

lemma letter_class:
  "in_class [(cp CHR ''a'', cp CHR ''z''), (cp CHR ''A'', cp CHR ''Z'')] c = letter c"
  by (simp add: in_class_def letter_def)

lemma is_valid_password_chars:
  "is_valid_password p \<longleftrightarrow> (\<exists>c \<in> set p. decimal_digit c) \<and> (\<exists>c \<in> set p. special_char c)"
  by (simp only: is_valid_password_def digit_pattern_def special_pattern_def search_one_class
        atom_matches.simps in_class_digit special_class if_P if_not_P split: if_split) simp

lemma lang_email:
  "m \<in> lang email_pattern \<longleftrightarrow>
     (\<exists>name host tld. m = name @ str ''@'' @ host @ str ''.'' @ tld \<and>
        name \<noteq> [] \<and> (\<forall>c \<in> set name. local_char c) \<and>
        host \<noteq> [] \<and> (\<forall>c \<in> set host. domain_char c) \<and>
        2 \<le> length tld \<and> (\<forall>c \<in> set tld. letter c))"
  by (simp add: email_pattern_def local_class domain_class letter_class str_def Suc_le_eq) blast

lemma is_valid_email_prefix:
  "is_valid_email s \<longleftrightarrow> (\<exists>m \<in> lang email_pattern. \<exists>r. s = m @ r)"
  using re_match_iff [of email_pattern s] by (auto simp: is_valid_email_def)

text \<open>
  Claim C5. For every string \<open>p\<close>, \<open>is_valid_password p\<close> is true if and only if \<open>p\<close>
  contains at least one decimal digit and at least one of the twenty special characters;
  the empty string is rejected, and \<open>1!\<close>, two characters and no letter, is accepted: no
  length, upper-case or lower-case requirement. The strings are all sequences of code
  points; the validators never encode them.
\<close>

theorem is_valid_password_iff:
  "(is_valid_password p \<longleftrightarrow>
      (\<exists>c \<in> set p. decimal_digit c) \<and> (\<exists>c \<in> set p. special_char c)) \<and>
   \<not> is_valid_password [] \<and> is_valid_password (str ''1!'')"
  by (simp add: is_valid_password_chars decimal_digit_def special_char_def str_def cp_def)

text \<open>
  Claim C6. For every string \<open>s\<close>, \<open>is_valid_email s\<close> is true if and only if \<open>s\<close> starts
  with: one or more characters of \<^verbatim>\<open>[a-zA-Z0-9._%+-]\<close>, then \<^verbatim>\<open>@\<close>, then one or more of
  \<^verbatim>\<open>[a-zA-Z0-9.-]\<close>, then a dot, then two or more letters; whatever follows that prefix is
  not looked at, so an accepted string stays accepted with anything appended, and the
  empty string is rejected.
\<close>

theorem is_valid_email_iff:
  "(is_valid_email s \<longleftrightarrow>
      (\<exists>name host tld rest. s = name @ str ''@'' @ host @ str ''.'' @ tld @ rest \<and>
         name \<noteq> [] \<and> (\<forall>c \<in> set name. local_char c) \<and>
         host \<noteq> [] \<and> (\<forall>c \<in> set host. domain_char c) \<and>
         2 \<le> length tld \<and> (\<forall>c \<in> set tld. letter c))) \<and>
   (is_valid_email s \<longrightarrow> is_valid_email (s @ garbage)) \<and>
   \<not> is_valid_email []"
proof (intro conjI)
  show "is_valid_email s \<longleftrightarrow>
      (\<exists>name host tld rest. s = name @ str ''@'' @ host @ str ''.'' @ tld @ rest \<and>
         name \<noteq> [] \<and> (\<forall>c \<in> set name. local_char c) \<and>
         host \<noteq> [] \<and> (\<forall>c \<in> set host. domain_char c) \<and>
         2 \<le> length tld \<and> (\<forall>c \<in> set tld. letter c))"
  proof
    assume "is_valid_email s"
    then obtain m r where m: "m \<in> lang email_pattern" and s: "s = m @ r"
      unfolding is_valid_email_prefix by blast
    from m obtain name host tld where
      "m = name @ str ''@'' @ host @ str ''.'' @ tld" and
      ok: "name \<noteq> [] \<and> (\<forall>c \<in> set name. local_char c) \<and>
         host \<noteq> [] \<and> (\<forall>c \<in> set host. domain_char c) \<and>
         2 \<le> length tld \<and> (\<forall>c \<in> set tld. letter c)"
      unfolding lang_email by blast
    with s have "s = name @ str ''@'' @ host @ str ''.'' @ tld @ r" by simp
    with ok show "\<exists>name host tld rest. s = name @ str ''@'' @ host @ str ''.'' @ tld @ rest \<and>
         name \<noteq> [] \<and> (\<forall>c \<in> set name. local_char c) \<and>
         host \<noteq> [] \<and> (\<forall>c \<in> set host. domain_char c) \<and>
         2 \<le> length tld \<and> (\<forall>c \<in> set tld. letter c)"
      by blast
  next
    assume "\<exists>name host tld rest. s = name @ str ''@'' @ host @ str ''.'' @ tld @ rest \<and>
         name \<noteq> [] \<and> (\<forall>c \<in> set name. local_char c) \<and>
         host \<noteq> [] \<and> (\<forall>c \<in> set host. domain_char c) \<and>
         2 \<le> length tld \<and> (\<forall>c \<in> set tld. letter c)"
    then obtain name host tld rest where
      s: "s = (name @ str ''@'' @ host @ str ''.'' @ tld) @ rest" and
      ok: "name \<noteq> []" "\<forall>c \<in> set name. local_char c" "host \<noteq> []"
        "\<forall>c \<in> set host. domain_char c" "2 \<le> length tld" "\<forall>c \<in> set tld. letter c"
      by auto
    have "name @ str ''@'' @ host @ str ''.'' @ tld \<in> lang email_pattern"
      unfolding lang_email using ok by blast
    with s show "is_valid_email s"
      unfolding is_valid_email_prefix by blast
  qed
  show "is_valid_email s \<longrightarrow> is_valid_email (s @ garbage)"
    unfolding is_valid_email_prefix by (metis append.assoc)
  show "\<not> is_valid_email []"
    by (simp add: is_valid_email_def re_match_def email_pattern_def)
qed

theorem is_valid_password_iff_witness:
  "is_valid_password (str ''validpass%1'') \<and> \<not> is_valid_password (str ''notvalidpass&'') \<and>
   \<not> is_valid_password (str ''notvalidpass1'')"
  using is_valid_password_iff [of "str ''validpass%1''"]
    is_valid_password_iff [of "str ''notvalidpass&''"]
    is_valid_password_iff [of "str ''notvalidpass1''"]
  by (simp add: decimal_digit_def special_char_def str_def cp_def)

theorem is_valid_email_iff_witness:
  "is_valid_email (str ''info@correct.com'') \<and>
   is_valid_email (str ''info@correct.com'' @ str ''<script>'')"
proof -
  have "str ''info@correct.com'' =
        str ''info'' @ str ''@'' @ str ''correct'' @ str ''.'' @ str ''com'' @ [] \<and>
      str ''info'' \<noteq> [] \<and> (\<forall>c \<in> set (str ''info''). local_char c) \<and>
      str ''correct'' \<noteq> [] \<and> (\<forall>c \<in> set (str ''correct''). domain_char c) \<and>
      2 \<le> length (str ''com'') \<and> (\<forall>c \<in> set (str ''com''). letter c)"
    by (simp add: local_char_def domain_char_def letter_def str_def cp_def)
  then have "\<exists>name host tld rest.
      str ''info@correct.com'' = name @ str ''@'' @ host @ str ''.'' @ tld @ rest \<and>
      name \<noteq> [] \<and> (\<forall>c \<in> set name. local_char c) \<and>
      host \<noteq> [] \<and> (\<forall>c \<in> set host. domain_char c) \<and>
      2 \<le> length tld \<and> (\<forall>c \<in> set tld. letter c)"
    by blast
  then have v: "is_valid_email (str ''info@correct.com'')"
    using is_valid_email_iff [of "str ''info@correct.com''" "str ''<script>''"] by blast
  then have "is_valid_email (str ''info@correct.com'' @ str ''<script>'')"
    using is_valid_email_iff [of "str ''info@correct.com''" "str ''<script>''"] by blast
  with v show ?thesis by simp
qed

section \<open>The operations, case by case\<close>

lemma bind_text_cases:
  "bind_text s = (if list_all encodable s then Inr s else Inl UnicodeEncodeError)"
  by (simp add: bind_text_def encode_def)

lemma hash_password_cases:
  "hash_password s =
     (if list_all encodable s then Inr (hexdigest (sha256 (concat (map utf8 s))))
      else Inl UnicodeEncodeError)"
  by (simp add: hash_password_def encode_def)

lemma fetchone_filter: "(fetchone (filter P xs) = None) = (\<not> (\<exists>x \<in> set xs. P x))"
  by (cases "filter P xs")
     (auto simp: fetchone_def filter_empty_conv dest: filter_eq_ConsD)

lemma fetchone_map_filter: "fetchone (map f (filter P xs)) = map_option f (find P xs)"
  by (induction xs) (auto simp: fetchone_def)

lemma register_user_cases:
  "register_user now db email password =
     (if \<not> is_valid_email email then (db, Inr (False, ''Invalid email format''))
      else if \<not> is_valid_password password then
        (db, Inr (False, ''Password should contain at least one digit and one special character.''))
      else if \<not> list_all encodable email then
        (db\<lparr>open_connections := Suc (open_connections db)\<rparr>, Inl UnicodeEncodeError)
      else if \<exists>u \<in> set (users db). user_email u = email then
        (db, Inr (False, ''Email already registered''))
      else
        case hash_password password of
          Inl err \<Rightarrow> (db\<lparr>open_connections := Suc (open_connections db)\<rparr>, Inl err)
        | Inr hashed \<Rightarrow>
            (db\<lparr>users := users db @
                  [\<lparr>user_id = Suc (sqlite_sequence db), user_email = email,
                    user_password = hashed, is_active = False,
                    registration_date = Some now, activation_date = None\<rparr>],
                sqlite_sequence := Suc (sqlite_sequence db)\<rparr>,
             Inr (True, ''Registration successful'')))"
  by (simp add: register_user_def select_where_email_def bind_text_cases fetchone_filter
        sqlite3_connect_def conn_close_def conn_commit_def insert_user_def list_ex_iff
        split: sum.splits)

lemma activate_user_cases:
  "activate_user now db email =
     (if \<not> list_all encodable email then
        (db\<lparr>open_connections := Suc (open_connections db)\<rparr>, Inl UnicodeEncodeError)
      else if \<not> (\<exists>u \<in> set (users db). user_email u = email) then
        (db, Inr (False, ''User not found''))
      else
        (db\<lparr>users := map (\<lambda>u. if user_email u = email
                              then u\<lparr>is_active := True, activation_date := Some now\<rparr> else u)
                        (users db)\<rparr>,
         Inr (True, ''User activated'')))"
  by (simp add: activate_user_def select_where_email_def bind_text_cases fetchone_filter
        sqlite3_connect_def conn_close_def conn_commit_def update_activation_def)

lemma authenticate_user_cases:
  "authenticate_user db email password =
     (if \<not> list_all encodable email then
        (db\<lparr>open_connections := Suc (open_connections db)\<rparr>, Inl UnicodeEncodeError)
      else
        case find (\<lambda>u. user_email u = email) (users db) of
          None \<Rightarrow> (db, Inr (False, ''Invalid credentials or account not activated''))
        | Some u \<Rightarrow>
            case hash_password password of
              Inl err \<Rightarrow> (db\<lparr>open_connections := Suc (open_connections db)\<rparr>, Inl err)
            | Inr hashed \<Rightarrow>
                if hashed = user_password u \<and> is_active u
                then (db\<lparr>open_connections := Suc (open_connections db)\<rparr>,
                      Inr (True, ''Authentication successful''))
                else (db, Inr (False, ''Invalid credentials or account not activated'')))"
  by (simp add: authenticate_user_def select_password_is_active_def bind_text_cases
        fetchone_map_filter sqlite3_connect_def conn_close_def
        split: option.splits sum.splits)

lemma reset_password_cases:
  "reset_password db email new_password =
     (if \<not> is_valid_password new_password then
        (db, Inr (False, ''Password should contain at least one digit and one special character.''))
      else if \<not> list_all encodable email then
        (db\<lparr>open_connections := Suc (open_connections db)\<rparr>, Inl UnicodeEncodeError)
      else if \<not> (\<exists>u \<in> set (users db). user_email u = email) then
        (db, Inr (False, ''User not found''))
      else
        case hash_password new_password of
          Inl err \<Rightarrow> (db\<lparr>open_connections := Suc (open_connections db)\<rparr>, Inl err)
        | Inr hashed \<Rightarrow>
            (db\<lparr>users := map (\<lambda>u. if user_email u = email
                                  then u\<lparr>user_password := hashed\<rparr> else u)
                            (users db)\<rparr>,
             Inr (True, ''Password reset successfully'')))"
  by (simp add: reset_password_def select_where_email_def bind_text_cases fetchone_filter
        sqlite3_connect_def conn_close_def conn_commit_def update_password_def
        split: sum.splits)

section \<open>Example inputs\<close>

lemma cp_encodable: "encodable (cp c)"
proof -
  have "(of_char c :: nat) mod 256 = of_char c"
    by (rule of_char_mod_256)
  then have "(of_char c :: nat) < 256"
    by (metis mod_less_divisor zero_less_numeral)
  then show ?thesis
    unfolding encodable_def cp_def by linarith
qed

lemma str_encodable: "list_all encodable (str s)"
  by (simp add: str_def list_all_iff cp_encodable)

lemma surrogate_not_encodable: "\<not> encodable 0xD800"
  by (simp add: encodable_def)

lemma valid_email_examples:
  "is_valid_email (str ''u@x.com'')" "is_valid_email (str ''a@b.com'')"
  "\<not> is_valid_email (str ''bad-email'')" "is_valid_email (str ''a@b.com'' @ [0xD800])"
  by (simp_all add: is_valid_email_def re_match_def email_pattern_def in_class_def str_def
        cp_def)

lemma valid_password_examples:
  "is_valid_password (str ''Password123!'')" "is_valid_password (str ''Newpass456?'')"
  "\<not> is_valid_password (str ''password'')" "is_valid_password (str ''1!'' @ [0xD800])"
  by (simp_all add: is_valid_password_def re_match_def digit_pattern_def special_pattern_def
        in_class_def str_def cp_def)

lemma distinct_emails:
  "str ''a@b.com'' \<noteq> str ''u@x.com''" "str ''u@x.com'' \<noteq> str ''a@b.com''"
  "str ''v@x.com'' \<noteq> str ''u@x.com''" "str ''u@x.com'' \<noteq> str ''v@x.com''"
  by (simp_all add: str_def cp_def)

lemma registered_example:
  "run_calls [Register 5 (str ''u@x.com'') (str ''Password123!'')] =
     \<lparr>users = [\<lparr>user_id = 1, user_email = str ''u@x.com'',
                 user_password =
                   hexdigest (sha256 (concat (map utf8 (str ''Password123!'')))),
                 is_active = False, registration_date = Some 5, activation_date = None\<rparr>],
      sqlite_sequence = 1, open_connections = 0\<rparr>"
  by (simp add: run_calls_def register_user_cases hash_password_cases valid_email_examples
        valid_password_examples str_encodable empty_database_def)

lemma activated_example:
  "run_calls [Register 5 (str ''u@x.com'') (str ''Password123!''),
      Activate 7 (str ''u@x.com'')] =
     \<lparr>users = [\<lparr>user_id = 1, user_email = str ''u@x.com'',
                 user_password =
                   hexdigest (sha256 (concat (map utf8 (str ''Password123!'')))),
                 is_active = True, registration_date = Some 5, activation_date = Some 7\<rparr>],
      sqlite_sequence = 1, open_connections = 0\<rparr>"
  by (simp add: run_calls_def register_user_cases activate_user_cases hash_password_cases
        valid_email_examples valid_password_examples str_encodable empty_database_def)

section \<open>Registration\<close>

text \<open>
  Claim C1 as stated fails on a password, or an email, that both validators accept and
  that has no UTF-8 encoding (a lone surrogate, \<^verbatim>\<open>U+D800\<close>): on an empty table the claim
  promises an insert and \<open>(True, ''Registration successful'')\<close>, and \<^verbatim>\<open>UnicodeEncodeError\<close>
  leaves \<open>register_user\<close> instead, from \<open>hash_password\<close> or from the binding of the email
  to the \<^verbatim>\<open>SELECT\<close>, with nothing written and the connection still open.
\<close>

theorem register_user_order_counterexample:
  "is_valid_email (str ''a@b.com'') \<and> is_valid_password (str ''1!'' @ [0xD800]) \<and>
   str ''a@b.com'' \<notin> user_email ` set (users empty_database) \<and>
   register_user 1 empty_database (str ''a@b.com'') (str ''1!'' @ [0xD800]) =
     (empty_database\<lparr>open_connections := 1\<rparr>, Inl UnicodeEncodeError) \<and>
   is_valid_email (str ''a@b.com'' @ [0xD800]) \<and> is_valid_password (str ''Password123!'') \<and>
   register_user 1 empty_database (str ''a@b.com'' @ [0xD800]) (str ''Password123!'') =
     (empty_database\<lparr>open_connections := 1\<rparr>, Inl UnicodeEncodeError)"
  by (simp add: register_user_cases hash_password_cases valid_email_examples
        valid_password_examples str_encodable surrogate_not_encodable empty_database_def)

text \<open>
  Claim C1, amended. \<open>register_user\<close> checks the email format, then the password
  complexity, then uniqueness, and returns the message of the first check that fails,
  leaving the store as it was: the first two for every input, the third for every email
  that can be encoded as UTF-8, whatever the password. When all three pass and the
  password can be encoded too, it appends one row holding the digest that
  \<open>hash_password password\<close> returns, \<open>is_active = False\<close> and no activation date, and
  returns \<open>(True, ''Registration successful'')\<close>. When the email, or on an unregistered
  email the password, cannot be encoded, \<^verbatim>\<open>UnicodeEncodeError\<close> propagates after the two
  format checks: nothing is written and the connection stays open. \<^verbatim>\<open>IntegrityError\<close> is
  never raised.
\<close>

theorem register_user_order:
  "register_user now db email password =
     (if \<not> is_valid_email email then (db, Inr (False, ''Invalid email format''))
      else if \<not> is_valid_password password then
        (db, Inr (False, ''Password should contain at least one digit and one special character.''))
      else if \<not> list_all encodable email then
        (db\<lparr>open_connections := Suc (open_connections db)\<rparr>, Inl UnicodeEncodeError)
      else if \<exists>u \<in> set (users db). user_email u = email then
        (db, Inr (False, ''Email already registered''))
      else
        case hash_password password of
          Inl err \<Rightarrow> (db\<lparr>open_connections := Suc (open_connections db)\<rparr>, Inl err)
        | Inr hashed \<Rightarrow>
            (db\<lparr>users := users db @
                  [\<lparr>user_id = Suc (sqlite_sequence db), user_email = email,
                    user_password = hashed, is_active = False,
                    registration_date = Some now, activation_date = None\<rparr>],
                sqlite_sequence := Suc (sqlite_sequence db)\<rparr>,
             Inr (True, ''Registration successful'')))"
  by (rule register_user_cases)

theorem register_user_order_witness:
  "snd (register_user 5 empty_database (str ''u@x.com'') (str ''Password123!'')) =
     Inr (True, ''Registration successful'') \<and>
   map (\<lambda>u. (user_email u, Inr (user_password u), is_active u, activation_date u))
     (users (fst (register_user 5 empty_database (str ''u@x.com'') (str ''Password123!'')))) =
     [(str ''u@x.com'', hash_password (str ''Password123!''), False, None)] \<and>
   register_user 5 empty_database (str ''bad-email'') (str ''password'') =
     (empty_database, Inr (False, ''Invalid email format'')) \<and>
   register_user 5 empty_database (str ''u@x.com'') (str ''password'') =
     (empty_database,
      Inr (False, ''Password should contain at least one digit and one special character.'')) \<and>
   register_user 5 (run_calls [Register 5 (str ''u@x.com'') (str ''Password123!'')])
       (str ''u@x.com'') (str ''Newpass456?'') =
     (run_calls [Register 5 (str ''u@x.com'') (str ''Password123!'')],
      Inr (False, ''Email already registered''))"
  using register_user_order [of 5 empty_database "str ''u@x.com''" "str ''Password123!''"]
    register_user_order [of 5 empty_database "str ''bad-email''" "str ''password''"]
    register_user_order [of 5 empty_database "str ''u@x.com''" "str ''password''"]
    register_user_order [of 5 "run_calls [Register 5 (str ''u@x.com'') (str ''Password123!'')]"
      "str ''u@x.com''" "str ''Newpass456?''"]
  by (simp add: registered_example hash_password_cases valid_email_examples
        valid_password_examples str_encodable empty_database_def)

section \<open>Authentication\<close>

text \<open>
  Claim C2 as stated fails on a password that has no UTF-8 encoding: for a registered
  account that is not active the claim promises the uniform failure pair, and
  \<^verbatim>\<open>UnicodeEncodeError\<close> leaves \<open>authenticate_user\<close> instead, while the same password on an
  unknown email gets the failure pair, the row being looked up before the password is
  hashed.
\<close>

theorem authenticate_user_uniform_counterexample:
  "map (\<lambda>u. (user_email u, is_active u))
     (users (run_calls [Register 5 (str ''u@x.com'') (str ''Password123!'')])) =
     [(str ''u@x.com'', False)] \<and>
   snd (authenticate_user (run_calls [Register 5 (str ''u@x.com'') (str ''Password123!'')])
          (str ''u@x.com'') (str ''1!'' @ [0xD800])) =
     Inl UnicodeEncodeError \<and>
   snd (authenticate_user (run_calls [Register 5 (str ''u@x.com'') (str ''Password123!'')])
          (str ''v@x.com'') (str ''1!'' @ [0xD800])) =
     Inr (False, ''Invalid credentials or account not activated'')"
  by (simp add: registered_example authenticate_user_cases hash_password_cases str_encodable
        surrogate_not_encodable distinct_emails)

text \<open>
  Claim C2, amended. For every email that can be encoded as UTF-8, and every password that
  can be encoded or whose email matches no row, \<open>authenticate_user\<close> returns
  \<open>(False, ''Invalid credentials or account not activated'')\<close>, the same message in all
  three cases, exactly when no row has the email, or the stored hash is not the digest
  of the password, or the row is not active; otherwise it returns
  \<open>(True, ''Authentication successful'')\<close>. The row is the one the query fetches, the first
  with that email. For an email that cannot be encoded, and for a password that cannot be
  encoded when a row has the email, \<^verbatim>\<open>UnicodeEncodeError\<close> propagates.
\<close>

theorem authenticate_user_uniform:
  "snd (authenticate_user db email password) =
     (if \<not> list_all encodable email then Inl UnicodeEncodeError
      else
        case find (\<lambda>u. user_email u = email) (users db) of
          None \<Rightarrow> Inr (False, ''Invalid credentials or account not activated'')
        | Some u \<Rightarrow>
            case hash_password password of
              Inl err \<Rightarrow> Inl err
            | Inr hashed \<Rightarrow>
                if user_password u \<noteq> hashed \<or> \<not> is_active u
                then Inr (False, ''Invalid credentials or account not activated'')
                else Inr (True, ''Authentication successful''))"
  by (auto simp: authenticate_user_cases split: option.splits sum.splits)

theorem authenticate_user_uniform_witness:
  "snd (authenticate_user empty_database (str ''u@x.com'') (str ''Password123!'')) =
     Inr (False, ''Invalid credentials or account not activated'') \<and>
   snd (authenticate_user (run_calls [Register 5 (str ''u@x.com'') (str ''Password123!'')])
          (str ''u@x.com'') (str ''Password123!'')) =
     Inr (False, ''Invalid credentials or account not activated'') \<and>
   snd (authenticate_user
          (run_calls [Register 5 (str ''u@x.com'') (str ''Password123!''),
             Activate 7 (str ''u@x.com'')])
          (str ''u@x.com'') (str ''Password123!'')) =
     Inr (True, ''Authentication successful'')"
  using authenticate_user_uniform [of empty_database "str ''u@x.com''" "str ''Password123!''"]
    authenticate_user_uniform
      [of "run_calls [Register 5 (str ''u@x.com'') (str ''Password123!'')]"
        "str ''u@x.com''" "str ''Password123!''"]
    authenticate_user_uniform
      [of "run_calls [Register 5 (str ''u@x.com'') (str ''Password123!''),
             Activate 7 (str ''u@x.com'')]"
        "str ''u@x.com''" "str ''Password123!''"]
  by (simp add: registered_example activated_example hash_password_cases str_encodable
        empty_database_def)

section \<open>Password reset\<close>

text \<open>
  Claim C3 as stated fails on a new password that \<open>is_valid_password\<close> accepts and that has
  no UTF-8 encoding: for a registered email the claim promises the new hash and
  \<open>(True, ''Password reset successfully'')\<close>, and \<^verbatim>\<open>UnicodeEncodeError\<close> leaves
  \<open>reset_password\<close> instead, with the table unchanged and the connection still open.
\<close>

theorem reset_password_order_counterexample:
  "is_valid_password (str ''1!'' @ [0xD800]) \<and>
   map user_email (users (run_calls [Register 5 (str ''u@x.com'') (str ''Password123!'')])) =
     [str ''u@x.com''] \<and>
   reset_password (run_calls [Register 5 (str ''u@x.com'') (str ''Password123!'')])
       (str ''u@x.com'') (str ''1!'' @ [0xD800]) =
     ((run_calls [Register 5 (str ''u@x.com'') (str ''Password123!'')])
        \<lparr>open_connections := 1\<rparr>,
      Inl UnicodeEncodeError)"
  by (simp add: registered_example reset_password_cases hash_password_cases
        valid_password_examples str_encodable surrogate_not_encodable)

text \<open>
  Claim C3, amended. \<open>reset_password\<close> checks the password complexity before it looks the
  email up: an invalid new password gets the complexity message for every email,
  registered or not; otherwise an email that can be encoded as UTF-8 and matches no row
  gets \<open>''User not found''\<close>; otherwise, when the new password can be encoded, the stored
  hash becomes the digest that \<open>hash_password new_password\<close> returns and the result is
  \<open>(True, ''Password reset successfully'')\<close>. When the email, or on a registered email
  the new password, cannot be encoded, \<^verbatim>\<open>UnicodeEncodeError\<close> propagates after the
  complexity check: nothing is written and the connection stays open.
\<close>

theorem reset_password_order:
  "reset_password db email new_password =
     (if \<not> is_valid_password new_password then
        (db, Inr (False, ''Password should contain at least one digit and one special character.''))
      else if \<not> list_all encodable email then
        (db\<lparr>open_connections := Suc (open_connections db)\<rparr>, Inl UnicodeEncodeError)
      else if \<not> (\<exists>u \<in> set (users db). user_email u = email) then
        (db, Inr (False, ''User not found''))
      else
        case hash_password new_password of
          Inl err \<Rightarrow> (db\<lparr>open_connections := Suc (open_connections db)\<rparr>, Inl err)
        | Inr hashed \<Rightarrow>
            (db\<lparr>users := map (\<lambda>u. if user_email u = email
                                  then u\<lparr>user_password := hashed\<rparr> else u)
                            (users db)\<rparr>,
             Inr (True, ''Password reset successfully'')))"
  by (rule reset_password_cases)

theorem reset_password_order_witness:
  "reset_password empty_database (str ''u@x.com'') (str ''password'') =
     (empty_database,
      Inr (False, ''Password should contain at least one digit and one special character.'')) \<and>
   reset_password empty_database (str ''u@x.com'') (str ''Newpass456?'') =
     (empty_database, Inr (False, ''User not found'')) \<and>
   snd (reset_password (run_calls [Register 5 (str ''u@x.com'') (str ''Password123!'')])
       (str ''u@x.com'') (str ''Newpass456?'')) =
     Inr (True, ''Password reset successfully'') \<and>
   map (\<lambda>u. (user_email u, Inr (user_password u), is_active u))
     (users (fst (reset_password
        (run_calls [Register 5 (str ''u@x.com'') (str ''Password123!'')])
        (str ''u@x.com'') (str ''Newpass456?'')))) =
     [(str ''u@x.com'', hash_password (str ''Newpass456?''), False)]"
  using reset_password_order [of empty_database "str ''u@x.com''" "str ''password''"]
    reset_password_order [of empty_database "str ''u@x.com''" "str ''Newpass456?''"]
    reset_password_order [of "run_calls [Register 5 (str ''u@x.com'') (str ''Password123!'')]"
      "str ''u@x.com''" "str ''Newpass456?''"]
  by (simp add: registered_example hash_password_cases valid_password_examples str_encodable
        empty_database_def)

section \<open>The activation invariant\<close>

lemma register_user_consistent:
  "activation_consistent (users db) \<Longrightarrow>
   activation_consistent (users (fst (register_user now db email password)))"
  by (simp add: register_user_cases activation_consistent_def split: sum.splits)

lemma activate_user_consistent:
  "activation_consistent (users db) \<Longrightarrow>
   activation_consistent (users (fst (activate_user now db email)))"
  by (auto simp: activate_user_cases activation_consistent_def list_all_iff)

lemma authenticate_user_users:
  "users (fst (authenticate_user db email password)) = users db"
  by (simp add: authenticate_user_cases split: option.splits sum.splits)

lemma reset_password_consistent:
  "activation_consistent (users db) \<Longrightarrow>
   activation_consistent (users (fst (reset_password db email new_password)))"
  by (auto simp: reset_password_cases activation_consistent_def list_all_iff
        split: sum.splits)

lemma run_call_consistent:
  "activation_consistent (users db) \<Longrightarrow> activation_consistent (users (run_call db c))"
  by (cases c)
     (simp_all add: register_user_consistent activate_user_consistent authenticate_user_users
        reset_password_consistent)

lemma foldl_run_call_consistent:
  "activation_consistent (users db) \<Longrightarrow>
   activation_consistent (users (foldl run_call db cs))"
  by (induction cs arbitrary: db) (simp_all add: run_call_consistent)

text \<open>
  Claim C4. In every state reached from the empty table by any sequence of
  \<open>register_user\<close>, \<open>activate_user\<close>, \<open>authenticate_user\<close> and \<open>reset_password\<close> calls, every
  row has an activation date if and only if it is active. A call that raises writes
  nothing, so the sequence may go on after it.
\<close>

theorem activation_invariant:
  "activation_consistent (users (run_calls cs))"
  unfolding run_calls_def
  by (rule foldl_run_call_consistent) (simp add: activation_consistent_def empty_database_def)

theorem activation_invariant_witness:
  "activation_consistent
     (users (run_calls [Register 5 (str ''u@x.com'') (str ''Password123!''),
        Register 6 (str ''a@b.com'') (str ''Newpass456?''), Activate 7 (str ''u@x.com''),
        Reset (str ''u@x.com'') (str ''Newpass456?'')])) \<and>
   map is_active
     (users (run_calls [Register 5 (str ''u@x.com'') (str ''Password123!''),
        Register 6 (str ''a@b.com'') (str ''Newpass456?''), Activate 7 (str ''u@x.com''),
        Reset (str ''u@x.com'') (str ''Newpass456?'')])) =
     [True, False]"
  using activation_invariant [of "[Register 5 (str ''u@x.com'') (str ''Password123!''),
      Register 6 (str ''a@b.com'') (str ''Newpass456?''), Activate 7 (str ''u@x.com''),
      Reset (str ''u@x.com'') (str ''Newpass456?'')]"]
  by (simp add: run_calls_def register_user_cases activate_user_cases reset_password_cases
        hash_password_cases valid_email_examples valid_password_examples str_encodable
        distinct_emails empty_database_def)

section \<open>Sequences of calls, connections and failures\<close>

lemma find_map_update:
  "find (\<lambda>u. user_email u = email)
     (map (\<lambda>u. if user_email u = email then u\<lparr>user_password := h\<rparr> else u) us) =
   map_option (\<lambda>u. u\<lparr>user_password := h\<rparr>) (find (\<lambda>u. user_email u = email) us)"
  by (induction us) auto

lemma find_Some_in_set: "find P xs = Some x \<Longrightarrow> \<exists>u \<in> set xs. P u"
  by (auto simp: find_Some_iff)

text \<open>
  Claim C7 as stated fails: with \<open>a@b.com\<close> registered a moment before, a second
  registration of it with the password \<open>password\<close> is stopped by the complexity check,
  which runs before the uniqueness check, and does not answer
  \<open>''Email already registered''\<close>.
\<close>

theorem register_twice_counterexample:
  "is_valid_email (str ''a@b.com'') \<and> is_valid_password (str ''Password123!'') \<and>
   str ''a@b.com'' \<notin> user_email ` set (users empty_database) \<and>
   snd (register_user 5 empty_database (str ''a@b.com'') (str ''Password123!'')) =
     Inr (True, ''Registration successful'') \<and>
   snd (register_user 6
          (fst (register_user 5 empty_database (str ''a@b.com'') (str ''Password123!'')))
          (str ''a@b.com'') (str ''password'')) \<noteq>
     Inr (False, ''Email already registered'')"
  by (simp add: register_user_cases hash_password_cases valid_email_examples
        valid_password_examples str_encodable empty_database_def)

text \<open>
  Claim C7, amended. For a valid email that is not registered and a valid password \<open>p1\<close>,
  both of which can be encoded as UTF-8, the first \<open>register_user\<close> succeeds, and a second
  one right after it, with the same email and any password \<open>p2\<close>, fails: with
  \<open>''Email already registered''\<close> for every valid \<open>p2\<close>, and with the complexity message
  for an invalid one.
\<close>

theorem register_twice:
  assumes "is_valid_email email" and "is_valid_password p1"
    and "list_all encodable email" and "list_all encodable p1"
    and "email \<notin> user_email ` set (users db)"
  shows "snd (register_user t1 db email p1) = Inr (True, ''Registration successful'') \<and>
    snd (register_user t2 (fst (register_user t1 db email p1)) email p2) =
      (if is_valid_password p2 then Inr (False, ''Email already registered'')
       else Inr (False,
         ''Password should contain at least one digit and one special character.''))"
  using assms by (auto simp: register_user_cases hash_password_cases)

theorem register_twice_witness:
  "is_valid_email (str ''a@b.com'') \<and> is_valid_password (str ''Password123!'') \<and>
   list_all encodable (str ''a@b.com'') \<and> list_all encodable (str ''Password123!'') \<and>
   str ''a@b.com'' \<notin> user_email ` set (users empty_database) \<and>
   snd (register_user 5 empty_database (str ''a@b.com'') (str ''Password123!'')) =
     Inr (True, ''Registration successful'') \<and>
   snd (register_user 6
          (fst (register_user 5 empty_database (str ''a@b.com'') (str ''Password123!'')))
          (str ''a@b.com'') (str ''Newpass456?'')) =
     Inr (False, ''Email already registered'')"
proof -
  have e: "is_valid_email (str ''a@b.com'')" and p: "is_valid_password (str ''Password123!'')"
    by (rule valid_email_examples valid_password_examples)+
  have ee: "list_all encodable (str ''a@b.com'')"
    and pe: "list_all encodable (str ''Password123!'')"
    by (rule str_encodable)+
  have n: "str ''a@b.com'' \<notin> user_email ` set (users empty_database)"
    by (simp add: empty_database_def)
  show ?thesis
    using register_twice [OF e p ee pe n, of 5 6 "str ''Newpass456?''"] e p ee pe n
    by (simp add: valid_password_examples)
qed

text \<open>
  Claim C8 as stated fails for an account that is registered but was never activated:
  \<open>reset_password\<close> succeeds, and \<open>authenticate_user\<close> with the new password still fails,
  because it also requires \<open>is_active\<close>.
\<close>

theorem reset_then_authenticate_counterexample:
  "(\<exists>u \<in> set (users (run_calls [Register 5 (str ''u@x.com'') (str ''Password123!'')])).
      user_email u = str ''u@x.com'') \<and>
   str ''Password123!'' \<noteq> str ''Newpass456?'' \<and>
   hash_password (str ''Password123!'') \<noteq> Inl UnicodeEncodeError \<and>
   snd (reset_password (run_calls [Register 5 (str ''u@x.com'') (str ''Password123!'')])
          (str ''u@x.com'') (str ''Newpass456?'')) =
     Inr (True, ''Password reset successfully'') \<and>
   snd (authenticate_user
     (fst (reset_password (run_calls [Register 5 (str ''u@x.com'') (str ''Password123!'')])
             (str ''u@x.com'') (str ''Newpass456?'')))
     (str ''u@x.com'') (str ''Newpass456?'')) =
     Inr (False, ''Invalid credentials or account not activated'')"
proof -
  have "str ''Password123!'' \<noteq> str ''Newpass456?''"
    by (simp add: str_def cp_def)
  then show ?thesis
    by (simp add: registered_example reset_password_cases authenticate_user_cases
          hash_password_cases valid_password_examples str_encodable)
qed

text \<open>
  Claim C8, amended. For an email whose row is active, and two passwords whose digests
  differ, the old one having a digest (it can be encoded; the new one can, once the reset
  has succeeded): whenever \<open>reset_password\<close> with the new one returns true, a following
  \<open>authenticate_user\<close> with the old one returns false and one after that with the new
  one returns true.
\<close>

theorem reset_then_authenticate:
  assumes "find (\<lambda>u. user_email u = email) (users db) = Some u" and "is_active u"
    and "list_all encodable old_pw"
    and "hash_password old_pw \<noteq> hash_password new_pw"
    and "snd (reset_password db email new_pw) = Inr (True, msg)"
  shows "snd (authenticate_user (fst (reset_password db email new_pw)) email old_pw) =
      Inr (False, ''Invalid credentials or account not activated'') \<and>
    snd (authenticate_user
      (fst (authenticate_user (fst (reset_password db email new_pw)) email old_pw))
      email new_pw) = Inr (True, ''Authentication successful'')"
proof -
  from assms(1) have ex: "\<exists>u \<in> set (users db). user_email u = email"
    by (rule find_Some_in_set)
  from assms(5) have v: "is_valid_password new_pw" and ee: "list_all encodable email"
    and ne: "list_all encodable new_pw"
    by (auto simp: reset_password_cases hash_password_cases split: if_splits)
  let ?h = "hexdigest (sha256 (concat (map utf8 new_pw)))"
  let ?db = "fst (reset_password db email new_pw)"
  have hn: "hash_password new_pw = Inr ?h"
    using ne by (simp add: hash_password_cases)
  have f: "find (\<lambda>u. user_email u = email) (users ?db) = Some (u\<lparr>user_password := ?h\<rparr>)"
    using ex v ee hn assms(1) by (simp add: reset_password_cases find_map_update)
  have old: "authenticate_user ?db email old_pw =
      (?db, Inr (False, ''Invalid credentials or account not activated''))"
    using f ee assms(3,4) hn by (simp add: authenticate_user_cases hash_password_cases)
  have new: "snd (authenticate_user ?db email new_pw) =
      Inr (True, ''Authentication successful'')"
    using f ee assms(2) hn by (simp add: authenticate_user_cases)
  show ?thesis
    using new by (simp add: old)
qed

lemma other_operations_close:
  "snd (register_user now db email password) = Inr r \<Longrightarrow>
     open_connections (fst (register_user now db email password)) = open_connections db"
  "snd (activate_user now db email) = Inr r \<Longrightarrow>
     open_connections (fst (activate_user now db email)) = open_connections db"
  "snd (reset_password db email password) = Inr r \<Longrightarrow>
     open_connections (fst (reset_password db email password)) = open_connections db"
  "snd (authenticate_user db email password) = Inr (False, msg) \<Longrightarrow>
     open_connections (fst (authenticate_user db email password)) = open_connections db"
  by (auto simp: register_user_cases activate_user_cases reset_password_cases
        authenticate_user_cases split: option.splits sum.splits if_splits)

text \<open>
  Claim C9 fails on the code. After a registration and an activation no connection is
  open; a successful \<open>authenticate_user\<close> then returns with the connection it opened
  still open, its \<^verbatim>\<open>return\<close> standing before \<^verbatim>\<open>conn.close()\<close>.
\<close>

theorem authenticate_user_leaves_connection_open:
  "open_connections
     (run_calls [Register 5 (str ''u@x.com'') (str ''Password123!''),
        Activate 7 (str ''u@x.com'')]) = 0 \<and>
   snd (authenticate_user
     (run_calls [Register 5 (str ''u@x.com'') (str ''Password123!''),
        Activate 7 (str ''u@x.com'')])
     (str ''u@x.com'') (str ''Password123!'')) = Inr (True, ''Authentication successful'') \<and>
   open_connections (fst (authenticate_user
     (run_calls [Register 5 (str ''u@x.com'') (str ''Password123!''),
        Activate 7 (str ''u@x.com'')])
     (str ''u@x.com'') (str ''Password123!''))) = 1"
  by (simp add: activated_example authenticate_user_cases hash_password_cases str_encodable)

text \<open>
  Claim C10. Whenever one of the four operations returns a false flag, the table
  \<open>users\<close> after the call is the table before it.
\<close>

theorem failure_atomic:
  "(snd (register_user now db email password) = Inr (False, m1) \<longrightarrow>
      users (fst (register_user now db email password)) = users db) \<and>
   (snd (activate_user now db email) = Inr (False, m2) \<longrightarrow>
      users (fst (activate_user now db email)) = users db) \<and>
   (snd (authenticate_user db email password) = Inr (False, m3) \<longrightarrow>
      users (fst (authenticate_user db email password)) = users db) \<and>
   (snd (reset_password db email password) = Inr (False, m4) \<longrightarrow>
      users (fst (reset_password db email password)) = users db)"
  by (simp add: register_user_cases activate_user_cases authenticate_user_users
        reset_password_cases split: sum.splits)

text \<open>The digests of two passwords, computed from the definition of SHA-256.\<close>

lemma encode_examples:
  "encode (str ''Password123!'') =
     Inr [0x50, 0x61, 0x73, 0x73, 0x77, 0x6F, 0x72, 0x64, 0x31, 0x32, 0x33, 0x21]"
  "encode (str ''Newpass456?'') =
     Inr [0x4E, 0x65, 0x77, 0x70, 0x61, 0x73, 0x73, 0x34, 0x35, 0x36, 0x3F]"
  by (simp_all add: encode_def str_def cp_def utf8_def encodable_def)

lemma sha256_examples:
  "hexdigest (sha256 [0x50, 0x61, 0x73, 0x73, 0x77, 0x6F, 0x72, 0x64, 0x31, 0x32, 0x33, 0x21]) =
     ''a109e36947ad56de1dca1cc49f0ef8ac9ad9a7b1aa0df41fb3c4cb73c1ff01ea''"
  "hexdigest (sha256 [0x4E, 0x65, 0x77, 0x70, 0x61, 0x73, 0x73, 0x34, 0x35, 0x36, 0x3F]) =
     ''e398ff37267186b69415c3a59d4a636812d7cb7b535669a97ff18d654ce70972''"
  by code_simp+

lemma hash_password_examples:
  "hash_password (str ''Password123!'') =
     Inr ''a109e36947ad56de1dca1cc49f0ef8ac9ad9a7b1aa0df41fb3c4cb73c1ff01ea''"
  "hash_password (str ''Newpass456?'') =
     Inr ''e398ff37267186b69415c3a59d4a636812d7cb7b535669a97ff18d654ce70972''"
  by (simp_all only: hash_password_def encode_examples sha256_examples sum.case)

theorem reset_then_authenticate_witness:
  "find (\<lambda>u. user_email u = str ''u@x.com'')
     (users (run_calls [Register 5 (str ''u@x.com'') (str ''Password123!''),
        Activate 7 (str ''u@x.com'')])) =
     Some \<lparr>user_id = 1, user_email = str ''u@x.com'',
            user_password = hexdigest (sha256 (concat (map utf8 (str ''Password123!'')))),
            is_active = True, registration_date = Some 5, activation_date = Some 7\<rparr> \<and>
   list_all encodable (str ''Password123!'') \<and>
   hash_password (str ''Password123!'') \<noteq> hash_password (str ''Newpass456?'') \<and>
   snd (reset_password
     (run_calls [Register 5 (str ''u@x.com'') (str ''Password123!''),
        Activate 7 (str ''u@x.com'')])
     (str ''u@x.com'') (str ''Newpass456?'')) = Inr (True, ''Password reset successfully'') \<and>
   snd (authenticate_user
     (fst (reset_password
        (run_calls [Register 5 (str ''u@x.com'') (str ''Password123!''),
           Activate 7 (str ''u@x.com'')])
        (str ''u@x.com'') (str ''Newpass456?'')))
     (str ''u@x.com'') (str ''Password123!'')) =
     Inr (False, ''Invalid credentials or account not activated'') \<and>
   snd (authenticate_user
     (fst (authenticate_user
        (fst (reset_password
           (run_calls [Register 5 (str ''u@x.com'') (str ''Password123!''),
              Activate 7 (str ''u@x.com'')])
           (str ''u@x.com'') (str ''Newpass456?'')))
        (str ''u@x.com'') (str ''Password123!'')))
     (str ''u@x.com'') (str ''Newpass456?'')) = Inr (True, ''Authentication successful'')"
proof -
  let ?db = "run_calls [Register 5 (str ''u@x.com'') (str ''Password123!''),
      Activate 7 (str ''u@x.com'')]"
  let ?u = "\<lparr>user_id = 1, user_email = str ''u@x.com'',
            user_password = hexdigest (sha256 (concat (map utf8 (str ''Password123!'')))),
            is_active = True, registration_date = Some 5, activation_date = Some 7\<rparr>"
  have f: "find (\<lambda>u. user_email u = str ''u@x.com'') (users ?db) = Some ?u"
    unfolding activated_example by simp
  have a: "is_active ?u"
    by simp
  have e: "list_all encodable (str ''Password123!'')"
    by (rule str_encodable)
  have h: "hash_password (str ''Password123!'') \<noteq> hash_password (str ''Newpass456?'')"
    by (simp add: hash_password_examples)
  have r: "snd (reset_password ?db (str ''u@x.com'') (str ''Newpass456?'')) =
      Inr (True, ''Password reset successfully'')"
    unfolding activated_example
    by (simp add: reset_password_cases hash_password_cases valid_password_examples
          str_encodable)
  show ?thesis
    using reset_then_authenticate [OF f a e h r] f e h r by blast
qed

theorem failure_atomic_witness:
  "users (run_calls [Register 5 (str ''u@x.com'') (str ''Password123!'')]) \<noteq> [] \<and>
   snd (register_user 9 (run_calls [Register 5 (str ''u@x.com'') (str ''Password123!'')])
          (str ''u@x.com'') (str ''Newpass456?'')) =
     Inr (False, ''Email already registered'') \<and>
   users (fst (register_user 9
       (run_calls [Register 5 (str ''u@x.com'') (str ''Password123!'')])
       (str ''u@x.com'') (str ''Newpass456?''))) =
     users (run_calls [Register 5 (str ''u@x.com'') (str ''Password123!'')]) \<and>
   snd (activate_user 9 (run_calls [Register 5 (str ''u@x.com'') (str ''Password123!'')])
          (str ''v@x.com'')) =
     Inr (False, ''User not found'') \<and>
   users (fst (activate_user 9
       (run_calls [Register 5 (str ''u@x.com'') (str ''Password123!'')])
       (str ''v@x.com''))) =
     users (run_calls [Register 5 (str ''u@x.com'') (str ''Password123!'')]) \<and>
   snd (authenticate_user (run_calls [Register 5 (str ''u@x.com'') (str ''Password123!'')])
          (str ''u@x.com'') (str ''Newpass456?'')) =
     Inr (False, ''Invalid credentials or account not activated'') \<and>
   users (fst (authenticate_user
       (run_calls [Register 5 (str ''u@x.com'') (str ''Password123!'')])
       (str ''u@x.com'') (str ''Newpass456?''))) =
     users (run_calls [Register 5 (str ''u@x.com'') (str ''Password123!'')]) \<and>
   snd (reset_password (run_calls [Register 5 (str ''u@x.com'') (str ''Password123!'')])
          (str ''v@x.com'') (str ''Newpass456?'')) =
     Inr (False, ''User not found'') \<and>
   users (fst (reset_password
       (run_calls [Register 5 (str ''u@x.com'') (str ''Password123!'')])
       (str ''v@x.com'') (str ''Newpass456?''))) =
     users (run_calls [Register 5 (str ''u@x.com'') (str ''Password123!'')])"
proof -
  let ?db = "run_calls [Register 5 (str ''u@x.com'') (str ''Password123!'')]"
  have reg: "snd (register_user 9 ?db (str ''u@x.com'') (str ''Newpass456?'')) =
      Inr (False, ''Email already registered'')"
    unfolding registered_example
    by (simp add: register_user_cases valid_email_examples valid_password_examples
          str_encodable)
  have act: "snd (activate_user 9 ?db (str ''v@x.com'')) = Inr (False, ''User not found'')"
    unfolding registered_example
    by (simp add: activate_user_cases str_encodable distinct_emails)
  have auth: "snd (authenticate_user ?db (str ''u@x.com'') (str ''Newpass456?'')) =
      Inr (False, ''Invalid credentials or account not activated'')"
    unfolding registered_example
    by (simp add: authenticate_user_cases hash_password_cases str_encodable)
  have res: "snd (reset_password ?db (str ''v@x.com'') (str ''Newpass456?'')) =
      Inr (False, ''User not found'')"
    unfolding registered_example
    by (simp add: reset_password_cases valid_password_examples str_encodable
          distinct_emails)
  have ne: "users ?db \<noteq> []"
    unfolding registered_example by simp
  show ?thesis
    using failure_atomic [of 9 ?db "str ''u@x.com''" "str ''Newpass456?''"
        "''Email already registered''" _ "''Invalid credentials or account not activated''"]
      failure_atomic [of 9 ?db "str ''v@x.com''" "str ''Newpass456?''" _
        "''User not found''" _ "''User not found''"]
      reg act auth res ne
    by blast
qed

end
